theory Spec2Isabelle
  imports Main
begin

section \<open>The ARPU assembler records and emulator\<close>

text \<open>
  A shallow embedding of \<^verbatim>\<open>asm/mnemonics.ts\<close>, \<^verbatim>\<open>asm/AsmLine.ts\<close> and of the emulator
  class \<^verbatim>\<open>ARPUEmulator\<close> in the revision that counts cycles and knows the stack
  instruction \<^verbatim>\<open>SOP\<close>.

  Conventions. A TypeScript \<^verbatim>\<open>number\<close> that the program only ever uses as an integer is
  an \<^typ>\<open>int\<close> (exact below \<open>2^53\<close>); \<^verbatim>\<open>number[]\<close> is an \<^typ>\<open>int list\<close>;
  a value that may be \<^verbatim>\<open>undefined\<close> is an \<^typ>\<open>'a option\<close>. A method call mutates the
  object, so every method takes the state and returns the state it leaves behind.
\<close>

subsection \<open>Mnemonic tables\<close>

definition DATA_MNEMONIC :: string where
  "DATA_MNEMONIC = ''DW''"

definition INSTRUCTION_MNEMONICS :: "string list" where
  "INSTRUCTION_MNEMONICS =
     [''ADD'', ''SUB'', ''RSH'', ''INC'', ''DEC'', ''BIT'', ''CAL'', ''RET'',
      ''PST'', ''PLD'', ''IMM'', ''STR'', ''LOD'', ''SOP'', ''BRA'', ''MOV'']"

definition ALL_MNEMONICS :: "string list" where
  "ALL_MNEMONICS = DATA_MNEMONIC # INSTRUCTION_MNEMONICS"

definition EXTRA_BYTE_INSTRUCTIONS :: "string list" where
  "EXTRA_BYTE_INSTRUCTIONS = [''BIT'', ''IMM'', ''BRA'']"

subsection \<open>JavaScript arrays and numbers\<close>

text \<open>\<^verbatim>\<open>xs[i]\<close>: the element, or \<^verbatim>\<open>undefined\<close> (\<open>None\<close>) outside the array.\<close>

definition elemAt :: "'a list \<Rightarrow> int \<Rightarrow> 'a option" where
  "elemAt xs i = (if 0 \<le> i \<and> i < int (length xs) then Some (xs ! nat i) else None)"

text \<open>
  \<^verbatim>\<open>xs[i] = v\<close> inside the array. Outside it JavaScript grows the array or adds a
  property, which an \<^typ>\<open>int list\<close> cannot hold; that case is \<open>None\<close> and the
  emulator's methods report it as \<open>Untyped\<close> below.
\<close>

definition setAt :: "'a list \<Rightarrow> int \<Rightarrow> 'a \<Rightarrow> 'a list option" where
  "setAt xs i v = (if 0 \<le> i \<and> i < int (length xs) then Some (xs[nat i := v]) else None)"

text \<open>\<^verbatim>\<open>xs.findIndex(p)\<close>: the first index whose element satisfies \<open>p\<close>, or \<open>-1\<close>.\<close>

fun findIndexFrom :: "('a \<Rightarrow> bool) \<Rightarrow> 'a list \<Rightarrow> int \<Rightarrow> int" where
  "findIndexFrom p [] i = -1"
| "findIndexFrom p (x # xs) i = (if p x then i else findIndexFrom p xs (i + 1))"

definition findIndex :: "('a \<Rightarrow> bool) \<Rightarrow> 'a list \<Rightarrow> int" where
  "findIndex p xs = findIndexFrom p xs 0"

text \<open>
  The shift operator \<^verbatim>\<open>x << n\<close> first converts \<open>x\<close> to a signed 32-bit integer
  (\<^verbatim>\<open>undefined\<close> converts to 0) and wraps its result to 32 bits again.
\<close>

definition toInt32 :: "int \<Rightarrow> int" where
  "toInt32 x = (x + 2 ^ 31) mod 2 ^ 32 - 2 ^ 31"

definition shiftLeft :: "int option \<Rightarrow> nat \<Rightarrow> int" where
  "shiftLeft x n =
     toInt32 (toInt32 (case x of None \<Rightarrow> 0 | Some v \<Rightarrow> v) * 2 ^ (n mod 32))"

text \<open>
  Modelled from the spec: \<^verbatim>\<open>isBitSet\<close> of \<^verbatim>\<open>util/common-util.ts\<close>, which is not among
  the sources. The emulator's tests read bit 7 of a result as its most significant and
  bit 0 as its least significant bit with it, so bit \<open>i\<close> has weight \<open>2^i\<close>.
\<close>

definition isBitSet :: "int \<Rightarrow> nat \<Rightarrow> bool" where
  "isBitSet n i = odd (n div 2 ^ i)"

text \<open>
  \<^verbatim>\<open>WORD_SIZE\<close> of \<^verbatim>\<open>const/emulator-constants.ts\<close> (not among the sources); the
  front end's message for a port value that is \<^verbatim>\<open>>= WORD_SIZE\<close> gives its value, 256.
\<close>

definition WORD_SIZE :: int where
  "WORD_SIZE = 256"

subsection \<open>Errors\<close>

text \<open>
  One constructor for each \<^verbatim>\<open>throw new Error(...)\<close> of the sources, and \<open>TypeError\<close> for
  the error the JavaScript runtime raises when a member of \<^verbatim>\<open>undefined\<close> is read or
  \<^verbatim>\<open>undefined\<close> is called.
\<close>

datatype error =
    StepWhileWaiting        \<comment> \<open>Cannot make a step while waiting for the port input\<close>
  | InputWhileNotWaiting    \<comment> \<open>Cannot input to port while not waiting for port input\<close>
  | WaitingButNotPLD        \<comment> \<open>Illegal state: current instruction is not PLD but we are waiting for port input\<close>
  | OperandsNotFilled       \<comment> \<open>Some operands that are labels were not filled with immediate values for line ...\<close>
  | NotADataLine            \<comment> \<open>Trying to access data value of non-data AsmLine ...\<close>
  | TypeError

subsection \<open>Operands\<close>

text \<open>
  Modelled from the spec: the class \<^verbatim>\<open>Operand\<close> of \<^verbatim>\<open>asm/Operand.ts\<close>, which is not
  among the sources. An operand is a register index, a literal or a reference to a label;
  \<^verbatim>\<open>toInt()\<close> is its integer value, \<^verbatim>\<open>undefined\<close> for a label reference that the
  assembler has not yet filled with the label's offset, and \<^verbatim>\<open>getLabel()\<close> is the name
  of the label it refers to, \<^verbatim>\<open>undefined\<close> for a register or a literal.
\<close>

datatype Operand = Operand (toInt: "int option") (getLabel: "string option")

subsection \<open>Instruction records: class AsmLine\<close>

record AsmLine =
  isData :: bool
  mnemonic :: string
  operands :: "Operand list"
  sizeInBytes :: int
  opcode :: int
  aliasMnemonic :: "string option"
  aliasOperands :: "Operand list option"
  offsetInBytes :: "int option"
  label :: "string option"

text \<open>
  Modelled from the spec: \<^verbatim>\<open>isData\<close> of \<^verbatim>\<open>asm/asm-util.ts\<close>, which is not among the
  sources: a record is data when its mnemonic is the data directive.
\<close>

definition isDataMnemonic :: "string \<Rightarrow> bool" where
  "isDataMnemonic m = (m = DATA_MNEMONIC)"

text \<open>The constructor. Label and offset are unset until the assembler sets them.\<close>

definition newAsmLine ::
  "string \<Rightarrow> Operand list \<Rightarrow> string option \<Rightarrow> Operand list option \<Rightarrow> AsmLine" where
  "newAsmLine m ops aliasM aliasOps =
     \<lparr> isData = isDataMnemonic m,
       mnemonic = m,
       operands = ops,
       sizeInBytes = (if length ops = 3 then 2 else 1),
       opcode = findIndex (\<lambda>mnemonic'. m = mnemonic') INSTRUCTION_MNEMONICS,
       aliasMnemonic = aliasM,
       aliasOperands = aliasOps,
       offsetInBytes = None,
       label = None \<rparr>"

definition setLabel :: "string \<Rightarrow> AsmLine \<Rightarrow> AsmLine" where
  "setLabel l line = line\<lparr> label := Some l \<rparr>"

definition setOffsetInBytes :: "int \<Rightarrow> AsmLine \<Rightarrow> AsmLine" where
  "setOffsetInBytes off line = line\<lparr> offsetInBytes := Some off \<rparr>"

definition getBytes :: "AsmLine \<Rightarrow> error + int list" where
  "getBytes line =
     (case those (map toInt (operands line)) of
        None \<Rightarrow> Inl OperandsNotFilled
      | Some operandInts \<Rightarrow>
          (let operandInt1 = elemAt operandInts 0;
               operandInt2 = (case elemAt operandInts 1 of None \<Rightarrow> 0 | Some v \<Rightarrow> v);
               operandInt3 = elemAt operandInts 2;
               byte1 = shiftLeft (Some operandInt2) 6 + shiftLeft operandInt1 4 + opcode line
           in (case operandInt3 of
                 None \<Rightarrow> Inr [byte1]
               | Some v \<Rightarrow> Inr [byte1, v])))"

definition getDataValue :: "AsmLine \<Rightarrow> error + int option" where
  "getDataValue line =
     (if isData line then
        (case elemAt (operands line) 0 of
           None \<Rightarrow> Inl TypeError
         | Some operand \<Rightarrow> Inr (toInt operand))
      else Inl NotADataLine)"

definition isHalt :: "AsmLine \<Rightarrow> error + bool" where
  "isHalt line =
     (case (if mnemonic line = ''BRA'' then
              (case elemAt (operands line) 2 of
                 None \<Rightarrow> Inl TypeError
               | Some target \<Rightarrow> Inr (getLabel target = label line))
            else Inr False) of
        Inl e \<Rightarrow> Inl e
      | Inr isSelfBranch \<Rightarrow>
          let isReturnOne =
                (mnemonic line = ''RET'' \<and>
                 (case elemAt (operands line) 0 of
                    None \<Rightarrow> False
                  | Some operand \<Rightarrow> toInt operand = Some 1))
          in Inr (isSelfBranch \<or> isReturnOne))"

subsection \<open>The emulator's state\<close>

record ARPUEmulatorState =
  asmLines :: "AsmLine list"
  lineIndex :: int
  registers :: "int list"
  PC :: int
  ZF :: bool
  COUTF :: bool
  MSBF :: bool
  LSBF :: bool
  PMEM :: "int list"
  RAM :: "int list"
  stack :: "int list"
  inputPorts :: "int list"
  outputPorts :: "int list"
  isWaitingPortInput :: bool
  cycle :: int

text \<open>\<^verbatim>\<open>asmCode.split('\n')\<close>.\<close>

fun splitOn :: "char \<Rightarrow> string \<Rightarrow> string list" where
  "splitOn c [] = [[]]"
| "splitOn c (x # xs) =
     (if x = c then [] # splitOn c xs
      else (case splitOn c xs of [] \<Rightarrow> [[x]] | l # ls \<Rightarrow> (x # l) # ls))"

text \<open>
  The state after construction. The assembler (\<^verbatim>\<open>compileIntermediateRepresentation\<close> and
  \<^verbatim>\<open>IRToMachineCode\<close> of \<^verbatim>\<open>asm/assemble.ts\<close>) and the constant \<^verbatim>\<open>RAM_SIZE_IN_BYTES\<close>
  are not among the sources and are parameters here; an error of the assembler leaves the
  constructor, and no state is made. \<open>initialState\<close> is the object literal that
  \<^verbatim>\<open>defaultARPUEmulatorState\<close> returns.
\<close>

definition initialState :: "AsmLine list \<Rightarrow> int list \<Rightarrow> nat \<Rightarrow> ARPUEmulatorState" where
  "initialState lines machineCode RAM_SIZE_IN_BYTES =
     \<lparr> asmLines = lines,
       lineIndex = 0,
       registers = [0, 0, 0, 0],
       PC = 0,
       ZF = False,
       COUTF = False,
       MSBF = False,
       LSBF = False,
       PMEM = machineCode,
       RAM = replicate RAM_SIZE_IN_BYTES 0,
       stack = [],
       inputPorts = [0, 0, 0, 0],
       outputPorts = [0, 0, 0, 0],
       isWaitingPortInput = False,
       cycle = 0 \<rparr>"

definition defaultARPUEmulatorState ::
  "(string list \<Rightarrow> error + AsmLine list) \<Rightarrow> (AsmLine list \<Rightarrow> error + int list) \<Rightarrow> nat
     \<Rightarrow> string \<Rightarrow> error + ARPUEmulatorState" where
  "defaultARPUEmulatorState compileIntermediateRepresentation IRToMachineCode
       RAM_SIZE_IN_BYTES asmCode =
     (case compileIntermediateRepresentation (splitOn (CHR 0x0A) asmCode) of
        Inl e \<Rightarrow> Inl e
      | Inr lines \<Rightarrow>
          (case IRToMachineCode lines of
             Inl e \<Rightarrow> Inl e
           | Inr machineCode \<Rightarrow> Inr (initialState lines machineCode RAM_SIZE_IN_BYTES)))"

subsection \<open>The emulator's methods\<close>

text \<open>
  What a call of a method leaves: \<open>Done s\<close> when it returns, with the state \<open>s\<close> it
  has made; \<open>Threw e s\<close> when it throws \<open>e\<close>, with the state \<open>s\<close> at that moment;
  \<open>Untyped\<close> when it returns after it has left the types of the state's declaration:
  it has stored \<^verbatim>\<open>undefined\<close> or \<^verbatim>\<open>NaN\<close> where the state has a number, or has written
  outside an array (an operand without a value, a register or port index outside the
  array), or has called a member that the dispatch table inherits. The typed state cannot
  describe what such a call leaves, and no statement below is about one.
\<close>

datatype outcome = Done ARPUEmulatorState | Threw error ARPUEmulatorState | Untyped

definition getFlags :: "ARPUEmulatorState \<Rightarrow> bool list" where
  "getFlags s = [ZF s, COUTF s, MSBF s, LSBF s]"

definition increment :: "Operand list \<Rightarrow> ARPUEmulatorState \<Rightarrow> outcome" where
  "increment ops s =
     (case elemAt ops 0 of
        None \<Rightarrow> Threw TypeError s
      | Some operand0 \<Rightarrow>
          (case toInt operand0 of
             None \<Rightarrow> Untyped
           | Some operand1Value \<Rightarrow>
               (case elemAt (registers s) operand1Value of
                  None \<Rightarrow> Untyped
                | Some r \<Rightarrow>
                    let incremented = r + 1;
                        wrapped = (if incremented \<ge> WORD_SIZE then 0 else incremented)
                    in Done (s\<lparr> registers := (registers s)[nat operand1Value := wrapped],
                                PC := PC s + 1,
                                lineIndex := lineIndex s + 1,
                                cycle := cycle s + 1 \<rparr>))))"

definition loadImmediate :: "Operand list \<Rightarrow> ARPUEmulatorState \<Rightarrow> outcome" where
  "loadImmediate ops s =
     (case elemAt ops 0 of
        None \<Rightarrow> Threw TypeError s
      | Some operand0 \<Rightarrow>
          (case elemAt ops 2 of
             None \<Rightarrow> Threw TypeError s
           | Some operand2 \<Rightarrow>
               (case (toInt operand0, toInt operand2) of
                  (Some destinationRegisterIndex, Some immediate) \<Rightarrow>
                    (case setAt (registers s) destinationRegisterIndex immediate of
                       None \<Rightarrow> Untyped
                     | Some registers' \<Rightarrow>
                         Done (s\<lparr> registers := registers',
                                   PC := PC s + 2,
                                   lineIndex := lineIndex s + 1,
                                   cycle := cycle s + 1 \<rparr>))
                | _ \<Rightarrow> Untyped)))"

definition portInput :: "int \<Rightarrow> ARPUEmulatorState \<Rightarrow> outcome" where
  "portInput v s =
     (if \<not> isWaitingPortInput s then Threw InputWhileNotWaiting s
      else
        (case elemAt (asmLines s) (lineIndex s) of
           None \<Rightarrow> Threw TypeError s
         | Some asmLine \<Rightarrow>
             if mnemonic asmLine \<noteq> ''PLD'' then Threw WaitingButNotPLD s
             else
               (case elemAt (operands asmLine) 0 of
                  None \<Rightarrow> Threw TypeError s
                | Some operand0 \<Rightarrow>
                    (case elemAt (operands asmLine) 1 of
                       None \<Rightarrow> Threw TypeError s
                     | Some operand1 \<Rightarrow>
                         (case (toInt operand0, toInt operand1) of
                            (Some destinationRegisterIndex, Some portIndex) \<Rightarrow>
                              (case (setAt (registers s) destinationRegisterIndex v,
                                     setAt (inputPorts s) portIndex v) of
                                 (Some registers', Some inputPorts') \<Rightarrow>
                                   Done (s\<lparr> registers := registers',
                                             inputPorts := inputPorts',
                                             PC := PC s + 1,
                                             lineIndex := lineIndex s + 1,
                                             isWaitingPortInput := False,
                                             cycle := cycle s + 1 \<rparr>)
                               | _ \<Rightarrow> Untyped)
                          | _ \<Rightarrow> Untyped)))))"

definition portLoad :: "ARPUEmulatorState \<Rightarrow> outcome" where
  "portLoad s = Done (s\<lparr> isWaitingPortInput := True \<rparr>)"

definition portStore :: "Operand list \<Rightarrow> ARPUEmulatorState \<Rightarrow> outcome" where
  "portStore ops s =
     (case elemAt ops 0 of
        None \<Rightarrow> Threw TypeError s
      | Some operand0 \<Rightarrow>
          (case elemAt ops 1 of
             None \<Rightarrow> Threw TypeError s
           | Some operand1 \<Rightarrow>
               (case (toInt operand0, toInt operand1) of
                  (Some sourceRegisterIndex, Some portIndex) \<Rightarrow>
                    (case elemAt (registers s) sourceRegisterIndex of
                       None \<Rightarrow> Untyped
                     | Some v \<Rightarrow>
                         (case setAt (outputPorts s) portIndex v of
                            None \<Rightarrow> Untyped
                          | Some outputPorts' \<Rightarrow>
                              Done (s\<lparr> outputPorts := outputPorts',
                                        PC := PC s + 1,
                                        lineIndex := lineIndex s + 1,
                                        cycle := cycle s + 1 \<rparr>)))
                | _ \<Rightarrow> Untyped)))"

text \<open>
  \<open>shouldJump\<close> is called by \<open>branch\<close> once the third operand is known to exist, so
  the first two exist as well. \<open>None\<close> stands for a control byte without a value, whose
  bits only the absent \<^verbatim>\<open>isBitSet\<close> could tell. A condition outside \<open>0..3\<close> selects
  \<^verbatim>\<open>undefined\<close>, which differs from either boolean.
\<close>

definition shouldJump :: "Operand list \<Rightarrow> ARPUEmulatorState \<Rightarrow> bool option" where
  "shouldJump ops s =
     (case (elemAt ops 0, elemAt ops 1) of
        (Some operand0, Some operand1) \<Rightarrow>
          (case toInt operand1 of
             None \<Rightarrow> None
           | Some flags \<Rightarrow>
               let condition = toInt operand0;
                   isConditional = isBitSet flags 0;
                   isNegate = isBitSet flags 1
               in if \<not> isConditional then Some True
                  else
                    let flag = (case condition of
                                  None \<Rightarrow> None
                                | Some c \<Rightarrow> elemAt (getFlags s) c)
                    in Some (flag \<noteq> Some isNegate))
      | _ \<Rightarrow> None)"

definition branch :: "Operand list \<Rightarrow> ARPUEmulatorState \<Rightarrow> outcome" where
  "branch ops s =
     (case elemAt ops 2 of
        None \<Rightarrow> Threw TypeError s
      | Some operand2 \<Rightarrow>
          (case shouldJump ops s of
             None \<Rightarrow> Untyped
           | Some True \<Rightarrow>
               (case toInt operand2 of
                  None \<Rightarrow> Untyped
                | Some destinationOffset \<Rightarrow>
                    let jumpToIndex =
                          findIndex (\<lambda>asmLine. offsetInBytes asmLine = Some destinationOffset)
                            (asmLines s)
                    in Done (s\<lparr> PC := destinationOffset,
                                lineIndex := jumpToIndex,
                                cycle := cycle s + 1 \<rparr>))
           | Some False \<Rightarrow>
               Done (s\<lparr> PC := PC s + 2,
                         lineIndex := lineIndex s + 1,
                         cycle := cycle s + 1 \<rparr>)))"

text \<open>The stack grows at the end of the list: \<^verbatim>\<open>push\<close> appends, \<^verbatim>\<open>pop\<close> takes the last.\<close>

definition stackOperation :: "Operand list \<Rightarrow> ARPUEmulatorState \<Rightarrow> outcome" where
  "stackOperation ops s =
     (case elemAt ops 1 of
        None \<Rightarrow> Threw TypeError s
      | Some operand1 \<Rightarrow>
          (case elemAt ops 0 of
             None \<Rightarrow> Threw TypeError s
           | Some operand0 \<Rightarrow>
               let isPush = (toInt operand1 = Some 0) in
               if isPush then
                 (case toInt operand0 of
                    None \<Rightarrow> Untyped
                  | Some sourceRegisterIndex \<Rightarrow>
                      (case elemAt (registers s) sourceRegisterIndex of
                         None \<Rightarrow> Untyped
                       | Some valueToPush \<Rightarrow>
                           Done (s\<lparr> stack := stack s @ [valueToPush],
                                     PC := PC s + 1,
                                     lineIndex := lineIndex s + 1,
                                     cycle := cycle s + 1 \<rparr>)))
               else
                 (case toInt operand0 of
                    None \<Rightarrow> Untyped
                  | Some destinationRegisterIndex \<Rightarrow>
                      let poppedValue = (if stack s = [] then None else Some (last (stack s)));
                          valueToWrite = (case poppedValue of None \<Rightarrow> 0 | Some v \<Rightarrow> v)
                      in (case setAt (registers s) destinationRegisterIndex valueToWrite of
                            None \<Rightarrow> Untyped
                          | Some registers' \<Rightarrow>
                              Done (s\<lparr> stack := butlast (stack s),
                                        registers := registers',
                                        PC := PC s + 1,
                                        lineIndex := lineIndex s + 1,
                                        cycle := cycle s + 1 \<rparr>)))))"

text \<open>
  The dispatch table. A string without an entry looks up \<^verbatim>\<open>undefined\<close>, and calling it
  raises \<open>TypeError\<close>, unless it is the name of a member that the table inherits as
  every JavaScript object does; what the call of such a member does is left \<open>Untyped\<close>.
\<close>

definition inheritedMembers :: "string list" where
  "inheritedMembers =
     [''constructor'', ''hasOwnProperty'', ''isPrototypeOf'', ''propertyIsEnumerable'',
      ''toLocaleString'', ''toString'', ''valueOf'', ''__proto__'',
      ''__defineGetter__'', ''__defineSetter__'', ''__lookupGetter__'', ''__lookupSetter__'']"

definition handlers :: "string \<Rightarrow> (Operand list \<Rightarrow> ARPUEmulatorState \<Rightarrow> outcome) option" where
  "handlers m =
     (if m = ''INC'' then Some increment
      else if m = ''IMM'' then Some loadImmediate
      else if m = ''PLD'' then Some (\<lambda>ops. portLoad)
      else if m = ''PST'' then Some portStore
      else if m = ''BRA'' then Some branch
      else if m = ''SOP'' then Some stackOperation
      else None)"

definition step :: "ARPUEmulatorState \<Rightarrow> outcome" where
  "step s =
     (if isWaitingPortInput s then Threw StepWhileWaiting s
      else
        (case elemAt (asmLines s) (lineIndex s) of
           None \<Rightarrow> Threw TypeError s
         | Some instruction \<Rightarrow>
             (case handlers (mnemonic instruction) of
                Some handler \<Rightarrow> handler (operands instruction) s
              | None \<Rightarrow>
                  if mnemonic instruction \<in> set inheritedMembers then Untyped
                  else Threw TypeError s)))"

subsection \<open>Programs of the emulator's tests\<close>

text \<open>
  The records the assembler makes of programs that the emulator's tests run, and of a
  program that ends in a branch to itself. A register name or a number is an operand
  with a value and no label (the tests have \<^verbatim>\<open>R1\<close> as index 0 and \<^verbatim>\<open>R2\<close> as index 1);
  a reference to a label carries the label's name and offset; the first record lies at
  offset 0.
\<close>

definition literal :: "int \<Rightarrow> Operand" where
  "literal v = Operand (Some v) None"

definition lineAt :: "int \<Rightarrow> string \<Rightarrow> Operand list \<Rightarrow> AsmLine" where
  "lineAt off m ops = setOffsetInBytes off (newAsmLine m ops None None)"

definition programIMM :: "AsmLine list" where
  \<comment> \<open>\<^verbatim>\<open>IMM 0 0 42\<close>\<close>
  "programIMM = [lineAt 0 ''IMM'' [literal 0, literal 0, literal 42]]"

definition programINC :: "AsmLine list" where
  \<comment> \<open>\<^verbatim>\<open>INC R1 R2\<close>\<close>
  "programINC = [lineAt 0 ''INC'' [literal 0, literal 1]]"

definition programPLD :: "AsmLine list" where
  \<comment> \<open>\<^verbatim>\<open>PLD R1 0\<close>\<close>
  "programPLD = [lineAt 0 ''PLD'' [literal 0, literal 0]]"

definition programSOP :: "AsmLine list" where
  \<comment> \<open>\<^verbatim>\<open>SOP R1 2\<close>\<close>
  "programSOP = [lineAt 0 ''SOP'' [literal 0, literal 2]]"

definition labelRef :: "string \<Rightarrow> int \<Rightarrow> Operand" where
  \<comment> \<open>a reference to a label, filled with the label's offset\<close>
  "labelRef name off = Operand (Some off) (Some name)"

definition programBranch :: "AsmLine list" where
  \<comment> \<open>\<^verbatim>\<open>BRA 0 0b11 .branch\<close>, \<^verbatim>\<open>IMM R1 0 1\<close>, \<^verbatim>\<open>.branch\<close>, \<^verbatim>\<open>IMM R1 0 2\<close>\<close>
  "programBranch =
     [lineAt 0 ''BRA'' [literal 0, literal 3, labelRef ''.branch'' 4],
      lineAt 2 ''IMM'' [literal 0, literal 0, literal 1],
      setLabel ''.branch'' (lineAt 4 ''IMM'' [literal 0, literal 0, literal 2])]"

definition programLoop :: "AsmLine list" where
  \<comment> \<open>\<^verbatim>\<open>IMM R1 0 7\<close>, \<^verbatim>\<open>.loop\<close>, \<^verbatim>\<open>BRA 0 0 .loop\<close>\<close>
  "programLoop =
     [lineAt 0 ''IMM'' [literal 0, literal 0, literal 7],
      setLabel ''.loop'' (lineAt 2 ''BRA'' [literal 0, literal 0, labelRef ''.loop'' 2])]"

definition programJump :: "AsmLine list" where
  \<comment> \<open>\<^verbatim>\<open>BRA 0 0 4\<close>, \<^verbatim>\<open>IMM R1 0 1\<close>, \<^verbatim>\<open>IMM R1 0 2\<close>\<close>
  "programJump =
     [lineAt 0 ''BRA'' [literal 0, literal 0, literal 4],
      lineAt 2 ''IMM'' [literal 0, literal 0, literal 1],
      lineAt 4 ''IMM'' [literal 0, literal 0, literal 2]]"

subsection \<open>What the assembler guarantees of its records\<close>

text \<open>
  Modelled from the spec: the assembler (\<^verbatim>\<open>asm/assemble.ts\<close> and \<^verbatim>\<open>asm/parse.ts\<close>) is not
  among the sources. Of the list of records it hands to the emulator the spec says:
  the offset of a record is the running sum of the sizes of the records before it; the
  number of operands is the one the mnemonic expects, so that a record has two bytes
  exactly when its mnemonic carries a third operand (the table
  \<open>EXTRA_BYTE_INSTRUCTIONS\<close>; asked here of the records whose mnemonic the emulator has
  a handler for); a label names one offset, the one of the record it
  stands at, and a reference to a label has been filled with that offset.
\<close>

fun laidOutFrom :: "int \<Rightarrow> AsmLine list \<Rightarrow> bool" where
  "laidOutFrom off [] = True"
| "laidOutFrom off (line # lines) =
     (offsetInBytes line = Some off \<and> laidOutFrom (off + sizeInBytes line) lines)"

definition sizedByMnemonic :: "AsmLine \<Rightarrow> bool" where
  "sizedByMnemonic line =
     (handlers (mnemonic line) = None \<or>
      sizeInBytes line = (if mnemonic line \<in> set EXTRA_BYTE_INSTRUCTIONS then 2 else 1))"

definition branchTargetExists :: "AsmLine list \<Rightarrow> AsmLine \<Rightarrow> bool" where
  "branchTargetExists lines line =
     (if mnemonic line = ''BRA'' then
        (case elemAt (operands line) 2 of
           None \<Rightarrow> False
         | Some target \<Rightarrow>
             (case toInt target of
                None \<Rightarrow> False
              | Some off \<Rightarrow> list_ex (\<lambda>other. offsetInBytes other = Some off) lines))
      else True)"

definition labelsResolved :: "AsmLine list \<Rightarrow> bool" where
  "labelsResolved lines =
     list_all
       (\<lambda>line.
          list_all
            (\<lambda>operand.
               (case getLabel operand of
                  None \<Rightarrow> True
                | Some name \<Rightarrow>
                    list_ex
                      (\<lambda>target. label target = Some name \<and> offsetInBytes target \<noteq> None \<and>
                                 toInt operand = offsetInBytes target)
                      lines))
            (operands line))
       lines"

definition labelsOneToOne :: "AsmLine list \<Rightarrow> bool" where
  "labelsOneToOne lines =
     list_all
       (\<lambda>a. list_all
               (\<lambda>b. label a = None \<or>
                     ((label a = label b) = (offsetInBytes a = offsetInBytes b)))
               lines)
       lines"

subsection \<open>The two position counters\<close>

text \<open>
  \<open>pcAtLineIndex\<close>: there is a record at \<open>lineIndex\<close>, and \<open>PC\<close> is its offset.
  \<open>pcAtEnd\<close>: \<open>lineIndex\<close> is one past the last record and \<open>PC\<close> one past its last
  byte.
\<close>

definition pcAtLineIndex :: "ARPUEmulatorState \<Rightarrow> bool" where
  "pcAtLineIndex s =
     (case elemAt (asmLines s) (lineIndex s) of
        None \<Rightarrow> False
      | Some line \<Rightarrow> offsetInBytes line = Some (PC s))"

definition pcAtEnd :: "ARPUEmulatorState \<Rightarrow> bool" where
  "pcAtEnd s =
     (lineIndex s = int (length (asmLines s)) \<and>
      PC s = sum_list (map sizeInBytes (asmLines s)))"

subsection \<open>The halt condition in the spec's words\<close>

text \<open>
  The spec's sentence, to compare \<open>isHalt\<close> with: a record halts when it is a branch
  whose literal target offset equals the offset of the record's own label, which is the
  record's own offset, or a return whose first operand has the value 1.
\<close>

definition isHaltBySpec :: "AsmLine \<Rightarrow> bool" where
  "isHaltBySpec line =
     ((mnemonic line = ''BRA'' \<and> label line \<noteq> None \<and>
       (case elemAt (operands line) 2 of
          None \<Rightarrow> False
        | Some target \<Rightarrow> toInt target \<noteq> None \<and> toInt target = offsetInBytes line))
      \<or>
      (mnemonic line = ''RET'' \<and>
       (case elemAt (operands line) 0 of
          None \<Rightarrow> False
        | Some operand \<Rightarrow> toInt operand = Some 1)))"

section \<open>Evaluation\<close>

lemmas run_defs =
  step_def portInput_def initialState_def lineAt_def literal_def labelRef_def
  setOffsetInBytes_def setLabel_def newAsmLine_def elemAt_def setAt_def handlers_def
  loadImmediate_def increment_def stackOperation_def portLoad_def portStore_def branch_def
  shouldJump_def getFlags_def isBitSet_def WORD_SIZE_def
  programIMM_def programINC_def programPLD_def programSOP_def programBranch_def
  programLoop_def programJump_def

section \<open>Lemmas\<close>

subsection \<open>findIndex\<close>

lemma findIndexFrom_found:
  "\<exists>x \<in> set xs. p x \<Longrightarrow>
     i \<le> findIndexFrom p xs i \<and> findIndexFrom p xs i < i + int (length xs) \<and>
     p (xs ! nat (findIndexFrom p xs i - i))"
proof (induction xs arbitrary: i)
  case Nil
  then show ?case by simp
next
  case (Cons x xs)
  show ?case
  proof (cases "p x")
    case True
    then show ?thesis by simp
  next
    case False
    with Cons.prems have "\<exists>y \<in> set xs. p y" by auto
    from Cons.IH [OF this, of "i + 1"]
    have ih: "i + 1 \<le> findIndexFrom p xs (i + 1)"
      "findIndexFrom p xs (i + 1) < i + 1 + int (length xs)"
      "p (xs ! nat (findIndexFrom p xs (i + 1) - (i + 1)))" by auto
    have "nat (findIndexFrom p xs (i + 1) - i) = Suc (nat (findIndexFrom p xs (i + 1) - (i + 1)))"
      using ih(1) by linarith
    with ih False show ?thesis by simp
  qed
qed

lemma findIndex_found:
  assumes "\<exists>x \<in> set xs. p x"
  shows "0 \<le> findIndex p xs" and "findIndex p xs < int (length xs)"
    and "p (xs ! nat (findIndex p xs))"
  using findIndexFrom_found [OF assms, of 0] by (simp_all add: findIndex_def)

subsection \<open>Offsets of a laid-out program\<close>

lemma laidOutFrom_nth:
  "laidOutFrom off lines \<Longrightarrow> i < length lines \<Longrightarrow>
     offsetInBytes (lines ! i) = Some (off + sum_list (map sizeInBytes (take i lines)))"
proof (induction lines arbitrary: off i)
  case Nil
  then show ?case by simp
next
  case (Cons line lines)
  show ?case
  proof (cases i)
    case 0
    with Cons.prems show ?thesis by simp
  next
    case (Suc j)
    with Cons.prems have "laidOutFrom (off + sizeInBytes line) lines" and "j < length lines"
      by simp_all
    from Cons.IH [OF this] Suc show ?thesis by (simp add: add.assoc)
  qed
qed

lemma advance_keeps_counters:
  assumes laid: "laidOutFrom 0 lines"
    and i: "i < length lines"
    and pc: "offsetInBytes (lines ! i) = Some pc"
    and lines': "asmLines s' = lines"
    and index': "lineIndex s' = int i + 1"
    and pc': "PC s' = pc + sizeInBytes (lines ! i)"
  shows "pcAtLineIndex s' \<or> pcAtEnd s'"
proof -
  from laidOutFrom_nth [OF laid i] pc
  have here: "pc = sum_list (map sizeInBytes (take i lines))" by simp
  have step: "sum_list (map sizeInBytes (take (Suc i) lines)) = pc + sizeInBytes (lines ! i)"
    using i here by (simp add: take_Suc_conv_app_nth)
  show ?thesis
  proof (cases "Suc i < length lines")
    case True
    from laidOutFrom_nth [OF laid True] step pc'
    have "offsetInBytes (lines ! Suc i) = Some (PC s')" by simp
    moreover have "nat (int i + 1) = Suc i" by simp
    ultimately have "pcAtLineIndex s'"
      using True lines' index' by (simp add: pcAtLineIndex_def elemAt_def)
    then show ?thesis ..
  next
    case False
    with i have "Suc i = length lines" by simp
    with step pc' lines' index' have "pcAtEnd s'" by (simp add: pcAtEnd_def)
    then show ?thesis ..
  qed
qed

lemma increment_Done:
  "increment ops s = Done s' \<Longrightarrow>
     asmLines s' = asmLines s \<and> PC s' = PC s + 1 \<and> lineIndex s' = lineIndex s + 1"
  by (auto simp add: increment_def Let_def split: option.splits)

lemma loadImmediate_Done:
  "loadImmediate ops s = Done s' \<Longrightarrow>
     asmLines s' = asmLines s \<and> PC s' = PC s + 2 \<and> lineIndex s' = lineIndex s + 1"
  by (auto simp add: loadImmediate_def split: option.splits)

lemma portStore_Done:
  "portStore ops s = Done s' \<Longrightarrow>
     asmLines s' = asmLines s \<and> PC s' = PC s + 1 \<and> lineIndex s' = lineIndex s + 1"
  by (auto simp add: portStore_def split: option.splits)

lemma stackOperation_Done:
  "stackOperation ops s = Done s' \<Longrightarrow>
     asmLines s' = asmLines s \<and> PC s' = PC s + 1 \<and> lineIndex s' = lineIndex s + 1"
  by (auto simp add: stackOperation_def Let_def split: option.splits if_splits)

lemma branch_Done:
  "branch ops s = Done s' \<Longrightarrow>
     asmLines s' = asmLines s \<and>
     ((PC s' = PC s + 2 \<and> lineIndex s' = lineIndex s + 1) \<or>
      (\<exists>operand2. elemAt ops 2 = Some operand2 \<and> toInt operand2 = Some (PC s') \<and>
         lineIndex s' =
           findIndex (\<lambda>asmLine. offsetInBytes asmLine = Some (PC s')) (asmLines s)))"
  by (auto simp add: branch_def Let_def split: option.splits bool.splits)

lemma portInput_Done:
  "portInput v s = Done s' \<Longrightarrow>
     \<exists>line. elemAt (asmLines s) (lineIndex s) = Some line \<and> mnemonic line = ''PLD'' \<and>
       asmLines s' = asmLines s \<and> PC s' = PC s + 1 \<and> lineIndex s' = lineIndex s + 1"
  by (auto simp add: portInput_def split: option.splits if_splits)

lemma step_Done:
  "step s = Done s' \<Longrightarrow>
     \<exists>line. elemAt (asmLines s) (lineIndex s) = Some line \<and>
       handlers (mnemonic line) \<noteq> None \<and> the (handlers (mnemonic line)) (operands line) s = Done s'"
  by (auto simp add: step_def split: option.splits if_splits)

subsection \<open>Packing\<close>

lemma those_map_Some: "those (map Some vs) = Some vs"
  by (induction vs) simp_all

lemma shiftLeft_small:
  assumes "0 \<le> v" and "v \<le> 3" and "n \<le> 6"
  shows "shiftLeft (Some v) n = v * 2 ^ n"
proof -
  have small: "toInt32 x = x" if "0 \<le> x" "x < 2 ^ 31" for x
    using that by (simp add: toInt32_def)
  have "(2::int) ^ n \<le> 2 ^ 6" using assms(3) by (intro power_increasing) simp_all
  then have "v * 2 ^ n \<le> 3 * 2 ^ 6" using assms(1,2) by (intro mult_mono) simp_all
  moreover have "0 \<le> v * 2 ^ n" using assms(1) by simp
  ultimately have "toInt32 (v * 2 ^ n) = v * 2 ^ n" by (intro small) simp_all
  moreover have "toInt32 v = v" using assms(1,2) by (intro small) simp_all
  moreover have "n mod 32 = n" using assms(3) by simp
  ultimately show ?thesis by (simp add: shiftLeft_def)
qed

lemma shiftLeft_None: "shiftLeft None n = 0"
  by (simp add: shiftLeft_def toInt32_def)

lemma packed_fields:
  fixes a b c :: int
  assumes "0 \<le> a" "a \<le> 3" "0 \<le> b" "b \<le> 3" "0 \<le> c" "c \<le> 15"
  shows "(64 * b + 16 * a + c) mod 16 = c \<and>
         (64 * b + 16 * a + c) div 16 mod 4 = a \<and>
         (64 * b + 16 * a + c) div 64 = b"
proof -
  define k where "k = 4 * b + a"
  define r where "r = 16 * a + c"
  have split16: "64 * b + 16 * a + c = c + k * 16" by (simp add: k_def)
  have split64: "64 * b + 16 * a + c = r + b * 64" by (simp add: r_def)
  have low: "c mod 16 = c" "c div 16 = 0" using assms(5,6) by simp_all
  have mid: "r div 64 = 0" using assms(1,2,5,6) by (simp add: r_def)
  have e1: "(c + k * 16) mod 16 = c" using low by simp
  have e2: "(c + k * 16) div 16 = k" using low by simp
  have e3: "k mod 4 = a" using assms(1,2) by (simp add: k_def)
  have e4: "(r + b * 64) div 64 = b" using mid by simp
  have "(64 * b + 16 * a + c) mod 16 = c" by (subst split16) (rule e1)
  moreover have "(64 * b + 16 * a + c) div 16 mod 4 = a" by (subst split16) (simp only: e2 e3)
  moreover have "(64 * b + 16 * a + c) div 64 = b" by (subst split64) (rule e4)
  ultimately show ?thesis by blast
qed

lemma opcode_of_instruction:
  assumes "m \<in> set INSTRUCTION_MNEMONICS"
  shows "0 \<le> opcode (newAsmLine m ops am ao) \<and> opcode (newAsmLine m ops am ao) \<le> 15 \<and>
         INSTRUCTION_MNEMONICS ! nat (opcode (newAsmLine m ops am ao)) = m"
proof -
  from assms have "\<exists>x \<in> set INSTRUCTION_MNEMONICS. m = x" by simp
  from findIndex_found [OF this] have "0 \<le> findIndex ((=) m) INSTRUCTION_MNEMONICS"
    "findIndex ((=) m) INSTRUCTION_MNEMONICS < int (length INSTRUCTION_MNEMONICS)"
    "INSTRUCTION_MNEMONICS ! nat (findIndex ((=) m) INSTRUCTION_MNEMONICS) = m" by simp_all
  moreover have "length INSTRUCTION_MNEMONICS = 16" by (simp add: INSTRUCTION_MNEMONICS_def)
  ultimately show ?thesis by (simp add: newAsmLine_def)
qed

section \<open>The claims\<close>

text \<open>
  C1. A step of a mnemonic that does not retarget \<open>PC\<close> advances \<open>PC\<close> by the record's
  byte size and \<open>cycle\<close> by the same amount; one step of \<^verbatim>\<open>IMM 0 0 42\<close> leaves
  \<open>PC = 2\<close> and \<open>cycle = 2\<close>.

  The emulator's \<open>loadImmediate\<close> adds 2 to \<open>PC\<close> and 1 to \<open>cycle\<close>: after the step of
  \<^verbatim>\<open>IMM 0 0 42\<close> the registers are \<open>[42, 0, 0, 0]\<close> and \<open>PC\<close> is 2, as the test of the
  instruction expects, and \<open>cycle\<close> is 1 where the test expects 2.
\<close>

theorem imm_step_counts_one_cycle:
  "step (initialState programIMM [10, 42] 4) =
     Done ((initialState programIMM [10, 42] 4)
             \<lparr> registers := [42, 0, 0, 0], PC := 2, lineIndex := 1, cycle := 1 \<rparr>)"
  by (simp add: run_defs)

text \<open>
  C2. \<open>PC\<close> is the offset of the record at \<open>lineIndex\<close> after every completed step and
  after every port input, for every program whose branch targets are offsets of records.

  Counterexample: the step of the last record of a program (here of its only one,
  \<^verbatim>\<open>IMM 0 0 42\<close>) leaves \<open>lineIndex\<close> one past the last record, where there is no
  record whose offset \<open>PC\<close> could be; the test of the instruction expects this state.
\<close>

theorem pc_past_the_last_record_counterexample:
  "laidOutFrom 0 programIMM \<and> list_all (branchTargetExists programIMM) programIMM \<and>
   pcAtLineIndex (initialState programIMM [10, 42] 4) \<and>
   step (initialState programIMM [10, 42] 4) =
     Done ((initialState programIMM [10, 42] 4)
             \<lparr> registers := [42, 0, 0, 0], PC := 2, lineIndex := 1, cycle := 1 \<rparr>) \<and>
   \<not> pcAtLineIndex ((initialState programIMM [10, 42] 4)
             \<lparr> registers := [42, 0, 0, 0], PC := 2, lineIndex := 1, cycle := 1 \<rparr>)"
  by (simp add: run_defs pcAtLineIndex_def branchTargetExists_def)

text \<open>
  C2 as amended. For a program as the assembler lays it out, whose branch targets are
  offsets of records, a completed step and a completed port input lead from a state in
  which \<open>PC\<close> is the offset of the record at \<open>lineIndex\<close> to one in which it is so
  again, or in which \<open>lineIndex\<close> is one past the last record and \<open>PC\<close> is the size of
  the program.
\<close>

theorem position_counters_in_step:
  assumes laid: "laidOutFrom 0 (asmLines s)"
    and sized: "list_all sizedByMnemonic (asmLines s)"
    and targets: "list_all (branchTargetExists (asmLines s)) (asmLines s)"
    and before: "pcAtLineIndex s \<or> pcAtEnd s"
    and run: "step s = Done s' \<or> portInput v s = Done s'"
  shows "asmLines s' = asmLines s \<and> (pcAtLineIndex s' \<or> pcAtEnd s')"
proof -
  from run obtain line where line: "elemAt (asmLines s) (lineIndex s) = Some line"
    using step_Done portInput_Done by blast
  define i where "i = nat (lineIndex s)"
  from line have i: "i < length (asmLines s)" and index: "lineIndex s = int i"
    and nth: "asmLines s ! i = line"
    by (auto simp add: elemAt_def i_def split: if_splits)
  from line before have pc: "offsetInBytes line = Some (PC s)"
    by (auto simp add: pcAtLineIndex_def pcAtEnd_def elemAt_def split: if_splits)
  from i nth have member: "line \<in> set (asmLines s)" by auto
  with sized have size: "sizedByMnemonic line" by (simp add: list_all_iff)
  from member targets have target: "branchTargetExists (asmLines s) line"
    by (simp add: list_all_iff)
  have advance: "pcAtLineIndex t \<or> pcAtEnd t"
    if "asmLines t = asmLines s" "lineIndex t = lineIndex s + 1"
       "PC t = PC s + sizeInBytes line" for t
    using advance_keeps_counters [OF laid i, of "PC s" t] that pc nth index by simp
  from run show ?thesis
  proof
    assume input: "portInput v s = Done s'"
    from portInput_Done [OF this] line
    have "mnemonic line = ''PLD''" and *: "asmLines s' = asmLines s" "PC s' = PC s + 1"
      "lineIndex s' = lineIndex s + 1" by auto
    with size have "sizeInBytes line = 1"
      by (simp add: sizedByMnemonic_def EXTRA_BYTE_INSTRUCTIONS_def handlers_def)
    with * advance [of s'] show ?thesis by simp
  next
    assume stepped: "step s = Done s'"
    from step_Done [OF this] line
    have known: "handlers (mnemonic line) \<noteq> None"
      and call: "the (handlers (mnemonic line)) (operands line) s = Done s'" by auto
    from known consider
        (INC) "mnemonic line = ''INC''" | (IMM) "mnemonic line = ''IMM''"
      | (PLD) "mnemonic line = ''PLD''" | (PST) "mnemonic line = ''PST''"
      | (BRA) "mnemonic line = ''BRA''" | (SOP) "mnemonic line = ''SOP''"
      by (auto simp add: handlers_def split: if_splits)
    then show ?thesis
    proof cases
      case INC
      with call have "increment (operands line) s = Done s'" by (simp add: handlers_def)
      from increment_Done [OF this] size INC advance [of s'] show ?thesis
        by (simp add: sizedByMnemonic_def EXTRA_BYTE_INSTRUCTIONS_def handlers_def)
    next
      case IMM
      with call have "loadImmediate (operands line) s = Done s'" by (simp add: handlers_def)
      from loadImmediate_Done [OF this] size IMM advance [of s'] show ?thesis
        by (simp add: sizedByMnemonic_def EXTRA_BYTE_INSTRUCTIONS_def handlers_def)
    next
      case PLD
      with call have "s' = s\<lparr> isWaitingPortInput := True \<rparr>"
        by (simp add: handlers_def portLoad_def)
      with before show ?thesis
        by (auto simp add: pcAtLineIndex_def pcAtEnd_def split: option.splits)
    next
      case PST
      with call have "portStore (operands line) s = Done s'" by (simp add: handlers_def)
      from portStore_Done [OF this] size PST advance [of s'] show ?thesis
        by (simp add: sizedByMnemonic_def EXTRA_BYTE_INSTRUCTIONS_def handlers_def)
    next
      case SOP
      with call have "stackOperation (operands line) s = Done s'" by (simp add: handlers_def)
      from stackOperation_Done [OF this] size SOP advance [of s'] show ?thesis
        by (simp add: sizedByMnemonic_def EXTRA_BYTE_INSTRUCTIONS_def handlers_def)
    next
      case BRA
      with call have "branch (operands line) s = Done s'" by (simp add: handlers_def)
      from branch_Done [OF this]
      have same: "asmLines s' = asmLines s"
        and either: "(PC s' = PC s + 2 \<and> lineIndex s' = lineIndex s + 1) \<or>
          (\<exists>operand2. elemAt (operands line) 2 = Some operand2 \<and> toInt operand2 = Some (PC s') \<and>
             lineIndex s' =
               findIndex (\<lambda>asmLine. offsetInBytes asmLine = Some (PC s')) (asmLines s))"
        by auto
      from either show ?thesis
      proof
        assume "PC s' = PC s + 2 \<and> lineIndex s' = lineIndex s + 1"
        with same size BRA advance [of s'] show ?thesis
          by (simp add: sizedByMnemonic_def EXTRA_BYTE_INSTRUCTIONS_def handlers_def)
      next
        assume "\<exists>operand2. elemAt (operands line) 2 = Some operand2 \<and> toInt operand2 = Some (PC s') \<and>
             lineIndex s' =
               findIndex (\<lambda>asmLine. offsetInBytes asmLine = Some (PC s')) (asmLines s)"
        then obtain operand2 where op: "elemAt (operands line) 2 = Some operand2"
          "toInt operand2 = Some (PC s')"
          and jump: "lineIndex s' =
               findIndex (\<lambda>asmLine. offsetInBytes asmLine = Some (PC s')) (asmLines s)"
          by blast
        from target BRA op
        have "\<exists>other \<in> set (asmLines s). offsetInBytes other = Some (PC s')"
          by (simp add: branchTargetExists_def list_ex_iff)
        from findIndex_found [OF this] jump same have "pcAtLineIndex s'"
          by (simp add: pcAtLineIndex_def elemAt_def)
        with same show ?thesis by simp
      qed
    qed
  qed
qed

theorem position_counters_in_step_witness:
  "laidOutFrom 0 programBranch \<and> list_all sizedByMnemonic programBranch \<and>
   list_all (branchTargetExists programBranch) programBranch \<and>
   pcAtLineIndex (initialState programBranch [206, 4, 10, 1, 10, 2] 4) \<and>
   step (initialState programBranch [206, 4, 10, 1, 10, 2] 4) =
     Done ((initialState programBranch [206, 4, 10, 1, 10, 2] 4) \<lparr> PC := 4, lineIndex := 2, cycle := 1 \<rparr>) \<and>
   pcAtLineIndex ((initialState programBranch [206, 4, 10, 1, 10, 2] 4) \<lparr> PC := 4, lineIndex := 2, cycle := 1 \<rparr>) \<and>
   laidOutFrom 0 programIMM \<and> list_all sizedByMnemonic programIMM \<and>
   list_all (branchTargetExists programIMM) programIMM \<and>
   pcAtLineIndex (initialState programIMM [10, 42] 4) \<and>
   step (initialState programIMM [10, 42] 4) =
     Done ((initialState programIMM [10, 42] 4)
             \<lparr> registers := [42, 0, 0, 0], PC := 2, lineIndex := 1, cycle := 1 \<rparr>) \<and>
   pcAtEnd ((initialState programIMM [10, 42] 4)
             \<lparr> registers := [42, 0, 0, 0], PC := 2, lineIndex := 1, cycle := 1 \<rparr>)"
proof -
  let ?jump = "initialState programBranch [206, 4, 10, 1, 10, 2] 4"
  let ?jumped = "?jump \<lparr> PC := 4, lineIndex := 2, cycle := 1 \<rparr>"
  have laid: "laidOutFrom 0 (asmLines ?jump)"
    by (simp add: run_defs)
  have sized: "list_all sizedByMnemonic (asmLines ?jump)"
    by (simp add: run_defs sizedByMnemonic_def EXTRA_BYTE_INSTRUCTIONS_def)
  have targets: "list_all (branchTargetExists (asmLines ?jump)) (asmLines ?jump)"
    by (simp add: run_defs branchTargetExists_def)
  have before: "pcAtLineIndex ?jump"
    by (simp add: run_defs pcAtLineIndex_def)
  have run: "step ?jump = Done ?jumped"
    by (simp add: run_defs findIndex_def)
  have notEnd: "\<not> pcAtEnd ?jumped"
    by (simp add: run_defs pcAtEnd_def)
  have run': "step ?jump = Done ?jumped \<or> portInput 0 ?jump = Done ?jumped"
    using run by simp
  from position_counters_in_step [OF laid sized targets disjI1 [OF before] run'] notEnd
  have after: "pcAtLineIndex ?jumped"
    by blast
  let ?last = "initialState programIMM [10, 42] 4"
  let ?ended = "?last \<lparr> registers := [42, 0, 0, 0], PC := 2, lineIndex := 1, cycle := 1 \<rparr>"
  have laid2: "laidOutFrom 0 (asmLines ?last)"
    by (simp add: run_defs)
  have sized2: "list_all sizedByMnemonic (asmLines ?last)"
    by (simp add: run_defs sizedByMnemonic_def EXTRA_BYTE_INSTRUCTIONS_def)
  have targets2: "list_all (branchTargetExists (asmLines ?last)) (asmLines ?last)"
    by (simp add: run_defs branchTargetExists_def)
  have before2: "pcAtLineIndex ?last"
    by (simp add: run_defs pcAtLineIndex_def)
  have run2: "step ?last = Done ?ended"
    by (simp add: run_defs)
  have notAt: "\<not> pcAtLineIndex ?ended"
    by (simp add: run_defs pcAtLineIndex_def)
  have run2': "step ?last = Done ?ended \<or> portInput 0 ?last = Done ?ended"
    using run2 by simp
  from position_counters_in_step [OF laid2 sized2 targets2 disjI1 [OF before2] run2'] notAt
  have after2: "pcAtEnd ?ended"
    by blast
  from laid sized targets before run after laid2 sized2 targets2 before2 run2 after2
  show ?thesis by (simp add: initialState_def)
qed

text \<open>
  C3. A pop of \<open>SOP\<close> from an empty stack fails with a stack underflow and never writes
  a default value into the destination register.

  The emulator's \<open>stackOperation\<close> takes \<^verbatim>\<open>undefined\<close> from the empty stack, makes it 0
  and writes it: the step of \<^verbatim>\<open>SOP R1 2\<close> with \<open>R1 = 42\<close> and an empty stack returns,
  with \<open>R1 = 0\<close>, where the test of the instruction expects the error
  \<^verbatim>\<open>Popping from empty stack\<close>.
\<close>

theorem sop_pop_of_empty_stack_writes_zero:
  "step ((initialState programSOP [141] 4) \<lparr> registers := [42, 0, 0, 0] \<rparr>) =
     Done ((initialState programSOP [141] 4)
             \<lparr> registers := [0, 0, 0, 0], PC := 1, lineIndex := 1, cycle := 1 \<rparr>)"
  by (simp add: run_defs)

text \<open>
  C4. A \<open>BRA\<close> record jumps iff bit 0 of its control byte (the second operand) is
  clear, or else the flag that the first operand selects (0 \<open>ZF\<close>, 1 \<open>COUTF\<close>, 2 \<open>MSBF\<close>,
  3 \<open>LSBF\<close>) differs from bit 1 of the control byte. A jump sets \<open>PC\<close> to the target
  offset and \<open>lineIndex\<close> to the index of the record at that offset; otherwise \<open>PC\<close>
  advances by 2 and \<open>lineIndex\<close> by 1.
\<close>

theorem bra_decision_and_target:
  fixes s :: ARPUEmulatorState
  defines "selected condition \<equiv>
             (if condition = 0 then ZF s else if condition = 1 then COUTF s
              else if condition = 2 then MSBF s else LSBF s)"
  defines "jumpToIndex target \<equiv>
             findIndex (\<lambda>asmLine. offsetInBytes asmLine = Some target) (asmLines s)"
  assumes "\<not> isWaitingPortInput s"
    and "elemAt (asmLines s) (lineIndex s) = Some line"
    and "mnemonic line = ''BRA''"
    and "elemAt (operands line) 0 = Some operand0"
    and "elemAt (operands line) 1 = Some operand1"
    and "elemAt (operands line) 2 = Some operand2"
    and "toInt operand0 = Some condition" and "0 \<le> condition" and "condition \<le> 3"
    and "toInt operand1 = Some control"
    and "toInt operand2 = Some target"
    and "\<exists>other \<in> set (asmLines s). offsetInBytes other = Some target"
  shows "step s =
           Done (if \<not> isBitSet control 0 \<or> selected condition \<noteq> isBitSet control 1
                 then s\<lparr> PC := target, lineIndex := jumpToIndex target, cycle := cycle s + 1 \<rparr>
                 else s\<lparr> PC := PC s + 2, lineIndex := lineIndex s + 1, cycle := cycle s + 1 \<rparr>) \<and>
         0 \<le> jumpToIndex target \<and> jumpToIndex target < int (length (asmLines s)) \<and>
         offsetInBytes (asmLines s ! nat (jumpToIndex target)) = Some target"
proof -
  from assms(10,11) have "condition = 0 \<or> condition = 1 \<or> condition = 2 \<or> condition = 3"
    by linarith
  then have flag: "elemAt (getFlags s) condition = Some (selected condition)"
    by (auto simp add: elemAt_def getFlags_def selected_def)
  have jump: "shouldJump (operands line) s =
      Some (\<not> isBitSet control 0 \<or> selected condition \<noteq> isBitSet control 1)"
    using assms(6,7,9,12) flag by (auto simp add: shouldJump_def Let_def)
  have run: "step s =
           Done (if \<not> isBitSet control 0 \<or> selected condition \<noteq> isBitSet control 1
                 then s\<lparr> PC := target, lineIndex := jumpToIndex target, cycle := cycle s + 1 \<rparr>
                 else s\<lparr> PC := PC s + 2, lineIndex := lineIndex s + 1, cycle := cycle s + 1 \<rparr>)"
    using assms(3,4,5,8,13) jump
    by (simp add: step_def handlers_def branch_def jumpToIndex_def)
  have index: "0 \<le> jumpToIndex target \<and> jumpToIndex target < int (length (asmLines s)) \<and>
         offsetInBytes (asmLines s ! nat (jumpToIndex target)) = Some target"
    using findIndex_found [OF assms(14)] by (simp add: jumpToIndex_def)
  from run index show ?thesis by simp
qed

theorem bra_decision_and_target_witness:
  "step (initialState programBranch [206, 4, 10, 1, 10, 2] 4) =
     Done ((initialState programBranch [206, 4, 10, 1, 10, 2] 4) \<lparr> PC := 4, lineIndex := 2, cycle := 1 \<rparr>)"
  using bra_decision_and_target [of "initialState programBranch [206, 4, 10, 1, 10, 2] 4" "lineAt 0 ''BRA'' [literal 0, literal 3, labelRef ''.branch'' 4]"
     "literal 0" "literal 3" "labelRef ''.branch'' 4" 0 3 4]
  by (simp add: run_defs findIndex_def)

text \<open>
  C5. The step of a \<open>PLD\<close> record sets \<open>isWaitingPortInput\<close> and changes nothing else;
  the port input that follows writes its value into the register named by the record's
  first operand and into the input port named by its second, clears
  \<open>isWaitingPortInput\<close> and advances \<open>PC\<close>, \<open>lineIndex\<close> and \<open>cycle\<close> by 1.
\<close>

theorem port_read_protocol:
  assumes "\<not> isWaitingPortInput s"
    and "elemAt (asmLines s) (lineIndex s) = Some pending"
    and "mnemonic pending = ''PLD''"
    and "elemAt (operands pending) 0 = Some destination"
    and "elemAt (operands pending) 1 = Some port"
    and "toInt destination = Some d" and "0 \<le> d" and "d < int (length (registers s))"
    and "toInt port = Some p" and "0 \<le> p" and "p < int (length (inputPorts s))"
  shows "step s = Done (s\<lparr> isWaitingPortInput := True \<rparr>) \<and>
         portInput v (s\<lparr> isWaitingPortInput := True \<rparr>) =
           Done (s\<lparr> registers := (registers s)[nat d := v],
                     inputPorts := (inputPorts s)[nat p := v],
                     PC := PC s + 1,
                     lineIndex := lineIndex s + 1,
                     isWaitingPortInput := False,
                     cycle := cycle s + 1 \<rparr>)"
  using assms by (simp add: step_def handlers_def portLoad_def portInput_def setAt_def)

theorem port_read_protocol_witness:
  "step (initialState programPLD [9] 4) =
     Done ((initialState programPLD [9] 4) \<lparr> isWaitingPortInput := True \<rparr>) \<and>
   portInput 2 ((initialState programPLD [9] 4) \<lparr> isWaitingPortInput := True \<rparr>) =
     Done ((initialState programPLD [9] 4)
             \<lparr> registers := [2, 0, 0, 0], inputPorts := [2, 0, 0, 0],
               PC := 1, lineIndex := 1, cycle := 1 \<rparr>)"
  using port_read_protocol [of "initialState programPLD [9] 4" "lineAt 0 ''PLD'' [literal 0, literal 0]"
      "literal 0" "literal 0" 0 0 2]
  by (simp add: initialState_def programPLD_def elemAt_def lineAt_def literal_def
        setOffsetInBytes_def newAsmLine_def)

text \<open>
  C6. \<open>step\<close> fails with an illegal-state error whenever a port read is pending;
  \<open>portInput\<close> fails with one whenever no read is pending, or the pending record is not
  a \<open>PLD\<close>; each failing call leaves the state as it found it.

  The three errors are the three \<^verbatim>\<open>throw\<close> statements of \<open>step\<close> and \<open>portInput\<close>;
  the state that \<open>Threw\<close> carries is the state at the throw, here the state of the call.
\<close>

theorem illegal_state_calls_change_nothing:
  "(isWaitingPortInput s \<longrightarrow> step s = Threw StepWhileWaiting s) \<and>
   (\<not> isWaitingPortInput s \<longrightarrow> portInput v s = Threw InputWhileNotWaiting s) \<and>
   (isWaitingPortInput s \<and> elemAt (asmLines s) (lineIndex s) = Some pending \<and>
      mnemonic pending \<noteq> ''PLD''
      \<longrightarrow> portInput v s = Threw WaitingButNotPLD s)"
  by (simp add: step_def portInput_def)

theorem illegal_state_calls_change_nothing_witness:
  "step ((initialState programPLD [9] 4) \<lparr> isWaitingPortInput := True \<rparr>) =
     Threw StepWhileWaiting ((initialState programPLD [9] 4) \<lparr> isWaitingPortInput := True \<rparr>) \<and>
   portInput 2 (initialState programPLD [9] 4) =
     Threw InputWhileNotWaiting (initialState programPLD [9] 4) \<and>
   portInput 2 ((initialState programIMM [10, 42] 4) \<lparr> isWaitingPortInput := True \<rparr>) =
     Threw WaitingButNotPLD ((initialState programIMM [10, 42] 4) \<lparr> isWaitingPortInput := True \<rparr>)"
  using
    illegal_state_calls_change_nothing
      [of "(initialState programPLD [9] 4) \<lparr> isWaitingPortInput := True \<rparr>" 2
          "lineAt 0 ''PLD'' [literal 0, literal 0]"]
    illegal_state_calls_change_nothing
      [of "initialState programPLD [9] 4" 2 "lineAt 0 ''PLD'' [literal 0, literal 0]"]
    illegal_state_calls_change_nothing
      [of "(initialState programIMM [10, 42] 4) \<lparr> isWaitingPortInput := True \<rparr>" 2
          "lineAt 0 ''IMM'' [literal 0, literal 0, literal 42]"]
  by (simp add: initialState_def programIMM_def programPLD_def elemAt_def lineAt_def
        setOffsetInBytes_def newAsmLine_def)

text \<open>
  C7. A step of \<open>INC\<close> sets the first operand's register to the second operand's
  register plus 1 modulo 256 and updates \<open>ZF\<close>, \<open>MSBF\<close> and \<open>LSBF\<close>; \<^verbatim>\<open>INC R1 R2\<close> with
  \<open>R2 = 42\<close> gives the registers \<open>[43, 42, 0, 0]\<close> and \<open>LSBF\<close>.

  The emulator's \<open>increment\<close> reads the first operand only, adds 1 to that register in
  place and writes no flag: the registers are \<open>[1, 42, 0, 0]\<close> and \<open>LSBF\<close> stays false,
  where the test of the instruction expects \<open>[43, 42, 0, 0]\<close> and \<open>LSBF\<close>.
\<close>

theorem inc_adds_one_to_its_first_operand:
  "step ((initialState programINC [67] 4) \<lparr> registers := [0, 42, 0, 0] \<rparr>) =
     Done ((initialState programINC [67] 4)
             \<lparr> registers := [1, 42, 0, 0], PC := 1, lineIndex := 1, cycle := 1 \<rparr>)"
  by (simp add: run_defs)

text \<open>
  C8. For every record whose operands all have values, the first byte of \<open>getBytes\<close> is
  the second operand (or 0) in bits 6 and 7, the first operand in bits 4 and 5 and the
  opcode in bits 0 to 3; a third operand is the second byte; a \<open>DW\<close> record emits its
  operand as its only byte, with no opcode.

  Counterexample: \<open>getBytes\<close> does not ask whether the record is data. The data
  directive is not in the table of instruction mnemonics, its opcode is \<open>-1\<close>, and
  \<open>getBytes\<close> of \<^verbatim>\<open>DW 5\<close> is the byte \<open>5 * 16 - 1 = 79\<close>, not 5.
\<close>

theorem data_record_getBytes_counterexample:
  "getBytes (newAsmLine ''DW'' [literal 5] None None) = Inr [79] \<and>
   getBytes (newAsmLine ''DW'' [literal 5] None None) \<noteq> Inr [5]"
  by (simp add: getBytes_def newAsmLine_def literal_def elemAt_def shiftLeft_def toInt32_def
        findIndex_def INSTRUCTION_MNEMONICS_def)

text \<open>
  C8 as amended. For a record of one of the sixteen instruction mnemonics whose operands
  all have values, the first two within \<open>0..3\<close>, the first byte of \<open>getBytes\<close> is
  \<open>64 * second + 16 * first + opcode\<close> (an absent operand counts 0), the opcode is the
  mnemonic's index in the table, so the three fields lie in bits 6 to 7, 4 to 5 and 0 to
  3; a third operand is the second byte. The operand of a \<open>DW\<close> record is what
  \<open>getDataValue\<close> returns.
\<close>

theorem instruction_bytes_and_data_value:
  fixes vs :: "int list" and m :: string and ops :: "Operand list"
    and am :: "string option" and ao :: "Operand list option"
  defines "first \<equiv> (case vs of [] \<Rightarrow> 0 | a # rest \<Rightarrow> a)"
  defines "second \<equiv> (case drop 1 vs of [] \<Rightarrow> 0 | b # rest \<Rightarrow> b)"
  defines "code \<equiv> opcode (newAsmLine m ops am ao)"
  defines "byte1 \<equiv> 64 * second + 16 * first + code"
  assumes instruction: "m \<in> set INSTRUCTION_MNEMONICS"
    and literals: "map toInt ops = map Some vs"
    and fields: "\<forall>v \<in> set (take 2 vs). 0 \<le> v \<and> v \<le> 3"
  shows
    "getBytes ((newAsmLine m ops am ao) \<lparr> offsetInBytes := off, label := name \<rparr>) =
       Inr (byte1 # take 1 (drop 2 vs)) \<and>
     INSTRUCTION_MNEMONICS ! nat code = m \<and> 0 \<le> code \<and> code \<le> 15 \<and>
     byte1 mod 16 = code \<and> byte1 div 16 mod 4 = first \<and> byte1 div 64 = second \<and>
     getDataValue
       ((newAsmLine DATA_MNEMONIC [operand] am ao) \<lparr> offsetInBytes := off, label := name \<rparr>) =
       Inr (toInt operand)"
proof -
  from opcode_of_instruction [OF instruction, of ops am ao]
  have code: "0 \<le> code" "code \<le> 15" "INSTRUCTION_MNEMONICS ! nat code = m"
    by (simp_all add: code_def)
  have range: "0 \<le> first \<and> first \<le> 3 \<and> 0 \<le> second \<and> second \<le> 3"
    using fields by (cases vs; cases "tl vs") (auto simp add: first_def second_def)
  have shifts: "shiftLeft (elemAt vs 0) 4 = 16 * first \<and>
      shiftLeft (Some (case elemAt vs 1 of None \<Rightarrow> 0 | Some v \<Rightarrow> v)) 6 = 64 * second"
    using range
    by (cases vs; cases "tl vs")
       (auto simp add: first_def second_def elemAt_def shiftLeft_None shiftLeft_small)
  have third: "(case elemAt vs 2 of None \<Rightarrow> Inr [x] | Some v \<Rightarrow> Inr [x, v]) =
      (Inr (x # take 1 (drop 2 vs)) :: error + int list)" for x
    by (cases vs; cases "tl vs"; cases "tl (tl vs)") (auto simp add: elemAt_def)
  have bytes: "getBytes ((newAsmLine m ops am ao) \<lparr> offsetInBytes := off, label := name \<rparr>) =
       Inr ((64 * second + 16 * first + code) # take 1 (drop 2 vs))"
    using shifts third
    by (simp add: getBytes_def literals those_map_Some Let_def code_def newAsmLine_def)
  have data: "getDataValue ((newAsmLine DATA_MNEMONIC [operand] am ao) \<lparr> offsetInBytes := off, label := name \<rparr>) =
       Inr (toInt operand)"
    by (simp add: getDataValue_def newAsmLine_def isDataMnemonic_def elemAt_def)
  from packed_fields [of first second code] range code bytes data
  show ?thesis by (simp add: byte1_def)
qed

theorem instruction_bytes_and_data_value_witness:
  "getBytes (lineAt 0 ''BRA'' [literal 1, literal 3, literal 4]) = Inr [222, 4] \<and>
   opcode (lineAt 0 ''BRA'' [literal 1, literal 3, literal 4]) = 14 \<and>
   (222 :: int) mod 16 = 14 \<and> (222 :: int) div 16 mod 4 = 1 \<and> (222 :: int) div 64 = 3 \<and>
   getDataValue (lineAt 0 ''DW'' [literal 5]) = Inr (Some 5)"
proof -
  have instruction: "''BRA'' \<in> set INSTRUCTION_MNEMONICS"
    by (simp add: INSTRUCTION_MNEMONICS_def)
  have literals: "map toInt [literal 1, literal 3, literal 4] = map Some [1, 3, 4]"
    by (simp add: literal_def)
  have fields: "\<forall>v \<in> set (take 2 [1, 3, 4 :: int]). 0 \<le> v \<and> v \<le> 3"
    by (simp add: numeral_2_eq_2)
  have code: "opcode (newAsmLine ''BRA'' [literal 1, literal 3, literal 4] None None) = 14"
    by (simp add: newAsmLine_def findIndex_def INSTRUCTION_MNEMONICS_def)
  from instruction_bytes_and_data_value
         [OF instruction literals fields,
          where am = None and ao = None and off = "Some 0" and name = None
            and operand = "literal 5"] code
  show ?thesis
    by (simp add: lineAt_def setOffsetInBytes_def DATA_MNEMONIC_def newAsmLine_def literal_def)
qed

text \<open>
  C9. \<open>isHalt\<close> is true iff the record is a branch whose literal target offset equals
  the offset of the record's own label, or a return whose first operand is 1.

  \<open>isHalt\<close> compares the name of the label that the branch's target refers to with
  the name of the record's label, and two absent names are equal. In the program
  \<^verbatim>\<open>BRA 0 0 4\<close>, \<^verbatim>\<open>IMM R1 0 1\<close>, \<^verbatim>\<open>IMM R1 0 2\<close>, which is laid out as the assembler lays
  programs out and whose branch target is the offset of its third record, the branch
  has no label and its target is a number: \<open>isHalt\<close> is true, although the record has
  no label, its target 4 is not its own offset 0, and its step goes on to \<open>PC = 4\<close>.
\<close>

theorem unlabelled_literal_branch_counts_as_halt:
  "laidOutFrom 0 programJump \<and> list_all sizedByMnemonic programJump \<and>
   list_all (branchTargetExists programJump) programJump \<and>
   labelsResolved programJump \<and> labelsOneToOne programJump \<and>
   isHalt (programJump ! 0) = Inr True \<and>
   isHaltBySpec (programJump ! 0) = False \<and>
   step (initialState programJump [14, 4, 10, 1, 10, 2] 4) =
     Done ((initialState programJump [14, 4, 10, 1, 10, 2] 4)
             \<lparr> PC := 4, lineIndex := 2, cycle := 1 \<rparr>)"
proof -
  have layout: "laidOutFrom 0 programJump \<and> list_all sizedByMnemonic programJump \<and>
      list_all (branchTargetExists programJump) programJump"
    by (simp add: run_defs sizedByMnemonic_def EXTRA_BYTE_INSTRUCTIONS_def
          branchTargetExists_def)
  have labels: "labelsResolved programJump \<and> labelsOneToOne programJump"
    by (simp add: labelsResolved_def labelsOneToOne_def run_defs)
  have halt: "isHalt (programJump ! 0) = Inr True"
    by (simp add: isHalt_def run_defs)
  have spec: "isHaltBySpec (programJump ! 0) = False"
    by (simp add: isHaltBySpec_def run_defs)
  have run: "step (initialState programJump [14, 4, 10, 1, 10, 2] 4) =
     Done ((initialState programJump [14, 4, 10, 1, 10, 2] 4)
             \<lparr> PC := 4, lineIndex := 2, cycle := 1 \<rparr>)"
    by (simp add: run_defs findIndex_def)
  from layout labels halt spec run show ?thesis by blast
qed

text \<open>
  The same comparison misses the branch to itself whose target is a number: the record
  \<^verbatim>\<open>BRA 0 0 0\<close> at offset 0 with the label \<^verbatim>\<open>.loop\<close> has the target offset of its own
  label, its target refers to no label, and \<open>isHalt\<close> is false.
\<close>

lemma labelled_literal_self_branch_is_no_halt:
  "isHalt (setLabel ''.loop'' (lineAt 0 ''BRA'' [literal 0, literal 0, literal 0])) = Inr False \<and>
   isHaltBySpec (setLabel ''.loop'' (lineAt 0 ''BRA'' [literal 0, literal 0, literal 0]))"
  by (simp add: isHalt_def isHaltBySpec_def run_defs)

text \<open>
  C10. Whenever the program assembles, the state of a new emulator has the registers
  \<open>[0, 0, 0, 0]\<close>, \<open>PC = 0\<close>, \<open>lineIndex = 0\<close>, the four flags false, \<open>cycle = 0\<close>, an empty
  stack, a RAM of zeros, input and output ports of zeros and no pending port read.
\<close>

theorem new_emulator_state:
  assumes "compile (splitOn (CHR 0x0A) asmCode) = Inr lines"
    and "encode lines = Inr machineCode"
  shows "\<exists>s. defaultARPUEmulatorState compile encode n asmCode = Inr s \<and>
     registers s = [0, 0, 0, 0] \<and> PC s = 0 \<and> lineIndex s = 0 \<and>
     \<not> ZF s \<and> \<not> COUTF s \<and> \<not> MSBF s \<and> \<not> LSBF s \<and> cycle s = 0 \<and> stack s = [] \<and>
     length (RAM s) = n \<and> (\<forall>cell \<in> set (RAM s). cell = 0) \<and>
     inputPorts s = [0, 0, 0, 0] \<and> outputPorts s = [0, 0, 0, 0] \<and>
     \<not> isWaitingPortInput s"
  using assms by (simp add: defaultARPUEmulatorState_def initialState_def)

theorem new_emulator_state_witness:
  "defaultARPUEmulatorState (\<lambda>sourceLines. Inr programIMM) (\<lambda>lines. Inr [10, 42]) 4 ''IMM 0 0 42'' =
     Inr (initialState programIMM [10, 42] 4) \<and>
   registers (initialState programIMM [10, 42] 4) = [0, 0, 0, 0] \<and>
   RAM (initialState programIMM [10, 42] 4) = [0, 0, 0, 0] \<and>
   stack (initialState programIMM [10, 42] 4) = [] \<and>
   cycle (initialState programIMM [10, 42] 4) = 0"
  using new_emulator_state
    [of "\<lambda>sourceLines. Inr programIMM" "''IMM 0 0 42''" programIMM "\<lambda>lines. Inr [10, 42]"
        "[10, 42]" 4]
  by (auto simp add: defaultARPUEmulatorState_def initialState_def numeral_eq_Suc)

section \<open>Further properties of the emulator\<close>

text \<open>
  X1. A completed step of an \<open>INC\<close>, \<open>IMM\<close>, \<open>PST\<close> or \<open>SOP\<close> record of the size its
  mnemonic expects advances \<open>PC\<close> by the record's byte size, \<open>lineIndex\<close> by 1 and
  \<open>cycle\<close> by 1.
\<close>

theorem straight_line_step_advances:
  assumes "step s = Done s'"
    and "elemAt (asmLines s) (lineIndex s) = Some line"
    and "mnemonic line \<in> {''INC'', ''IMM'', ''PST'', ''SOP''}"
    and "sizedByMnemonic line"
  shows "PC s' = PC s + sizeInBytes line \<and> lineIndex s' = lineIndex s + 1 \<and>
         cycle s' = cycle s + 1"
proof -
  from assms(1,2) have call: "the (handlers (mnemonic line)) (operands line) s = Done s'"
    by (auto simp add: step_def split: option.splits if_splits)
  from assms(3) consider "mnemonic line = ''INC''" | "mnemonic line = ''IMM''"
    | "mnemonic line = ''PST''" | "mnemonic line = ''SOP''" by auto
  then show ?thesis
  proof cases
    case 1
    with call assms(4) show ?thesis
      by (auto simp add: handlers_def increment_def Let_def sizedByMnemonic_def
            EXTRA_BYTE_INSTRUCTIONS_def split: option.splits)
  next
    case 2
    with call assms(4) show ?thesis
      by (auto simp add: handlers_def loadImmediate_def sizedByMnemonic_def
            EXTRA_BYTE_INSTRUCTIONS_def split: option.splits)
  next
    case 3
    with call assms(4) show ?thesis
      by (auto simp add: handlers_def portStore_def sizedByMnemonic_def
            EXTRA_BYTE_INSTRUCTIONS_def split: option.splits)
  next
    case 4
    with call assms(4) show ?thesis
      by (auto simp add: handlers_def stackOperation_def Let_def sizedByMnemonic_def
            EXTRA_BYTE_INSTRUCTIONS_def split: option.splits if_splits)
  qed
qed

theorem straight_line_step_advances_witness:
  "step (initialState programIMM [10, 42] 4) =
     Done ((initialState programIMM [10, 42] 4)
             \<lparr> registers := [42, 0, 0, 0], PC := 2, lineIndex := 1, cycle := 1 \<rparr>) \<and>
   sizedByMnemonic (programIMM ! 0) \<and> sizeInBytes (programIMM ! 0) = 2 \<and>
   PC ((initialState programIMM [10, 42] 4)
             \<lparr> registers := [42, 0, 0, 0], PC := 2, lineIndex := 1, cycle := 1 \<rparr>) =
     PC (initialState programIMM [10, 42] 4) + sizeInBytes (programIMM ! 0)"
proof -
  have run: "step (initialState programIMM [10, 42] 4) =
     Done ((initialState programIMM [10, 42] 4)
             \<lparr> registers := [42, 0, 0, 0], PC := 2, lineIndex := 1, cycle := 1 \<rparr>)"
    by (simp add: run_defs)
  have line: "elemAt (asmLines (initialState programIMM [10, 42] 4))
      (lineIndex (initialState programIMM [10, 42] 4)) = Some (programIMM ! 0)"
    by (simp add: initialState_def elemAt_def programIMM_def)
  have m: "mnemonic (programIMM ! 0) \<in> {''INC'', ''IMM'', ''PST'', ''SOP''}"
    by (simp add: run_defs)
  have sized: "sizedByMnemonic (programIMM ! 0)"
    by (simp add: run_defs sizedByMnemonic_def EXTRA_BYTE_INSTRUCTIONS_def)
  have size: "sizeInBytes (programIMM ! 0) = 2" by (simp add: run_defs)
  from straight_line_step_advances [OF run line m sized] run sized size show ?thesis by simp
qed

text \<open>
  X2. The step of a \<open>SOP\<close> record whose second operand is 0 appends the value of the
  register named by the first operand to the stack; with another second operand and a
  stack that is not empty it takes the last value off the stack into that register.
\<close>

theorem sop_push_and_pop:
  assumes "\<not> isWaitingPortInput s"
    and "elemAt (asmLines s) (lineIndex s) = Some line"
    and "mnemonic line = ''SOP''"
    and "elemAt (operands line) 0 = Some register"
    and "elemAt (operands line) 1 = Some mode"
    and "toInt register = Some r" and "0 \<le> r" and "r < int (length (registers s))"
  shows "(toInt mode = Some 0 \<longrightarrow>
            step s =
              Done (s\<lparr> stack := stack s @ [registers s ! nat r],
                        PC := PC s + 1, lineIndex := lineIndex s + 1, cycle := cycle s + 1 \<rparr>)) \<and>
         (toInt mode \<noteq> Some 0 \<and> stack s \<noteq> [] \<longrightarrow>
            step s =
              Done (s\<lparr> stack := butlast (stack s),
                        registers := (registers s)[nat r := last (stack s)],
                        PC := PC s + 1, lineIndex := lineIndex s + 1, cycle := cycle s + 1 \<rparr>))"
  using assms
  by (simp add: step_def handlers_def stackOperation_def elemAt_def setAt_def Let_def)

theorem sop_push_and_pop_witness:
  "step ((initialState [lineAt 0 ''SOP'' [literal 0, literal 0]] [13] 4)
           \<lparr> registers := [42, 0, 0, 0] \<rparr>) =
     Done ((initialState [lineAt 0 ''SOP'' [literal 0, literal 0]] [13] 4)
             \<lparr> registers := [42, 0, 0, 0], stack := [42], PC := 1, lineIndex := 1,
               cycle := 1 \<rparr>) \<and>
   step ((initialState programSOP [141] 4) \<lparr> stack := [42] \<rparr>) =
     Done ((initialState programSOP [141] 4)
             \<lparr> stack := [], registers := [42, 0, 0, 0], PC := 1, lineIndex := 1,
               cycle := 1 \<rparr>)"
  using
    sop_push_and_pop
      [of "(initialState [lineAt 0 ''SOP'' [literal 0, literal 0]] [13] 4)
             \<lparr> registers := [42, 0, 0, 0] \<rparr>"
          "lineAt 0 ''SOP'' [literal 0, literal 0]" "literal 0" "literal 0" 0]
    sop_push_and_pop
      [of "(initialState programSOP [141] 4) \<lparr> stack := [42] \<rparr>"
          "lineAt 0 ''SOP'' [literal 0, literal 2]" "literal 0" "literal 2" 0]
  by (simp add: run_defs)

text \<open>
  X3. In a program whose label references are resolved and whose labels and offsets
  correspond one to one, for a record that is not a branch, or is a branch whose target
  is a reference to a label: \<open>isHalt\<close> is true iff the record is a branch whose target
  offset equals the offset of the record's own label, or a return whose first operand
  is 1.
\<close>

theorem halt_of_label_reference:
  assumes member: "line \<in> set lines"
    and resolved: "labelsResolved lines"
    and oneToOne: "labelsOneToOne lines"
    and reference: "mnemonic line = ''BRA'' \<Longrightarrow>
        \<exists>target name. elemAt (operands line) 2 = Some target \<and> getLabel target = Some name"
  shows "isHalt line = Inr (isHaltBySpec line)"
proof (cases "mnemonic line = ''BRA''")
  case False
  then show ?thesis by (simp add: isHalt_def isHaltBySpec_def)
next
  case True
  from reference [OF True] obtain target name
    where target: "elemAt (operands line) 2 = Some target" and name: "getLabel target = Some name"
    by blast
  from target have "target \<in> set (operands line)"
    by (auto simp add: elemAt_def split: if_splits)
  with member resolved name obtain labelled
    where labelled: "labelled \<in> set lines" "label labelled = Some name"
      "offsetInBytes labelled \<noteq> None" "toInt target = offsetInBytes labelled"
    by (fastforce simp add: labelsResolved_def list_all_iff list_ex_iff)
  from oneToOne member labelled(1)
  have "label line = None \<or> ((label line = label labelled) = (offsetInBytes line = offsetInBytes labelled))"
    unfolding labelsOneToOne_def list_all_iff by blast
  moreover from oneToOne member labelled(1)
  have "label labelled = None \<or> ((label labelled = label line) = (offsetInBytes labelled = offsetInBytes line))"
    unfolding labelsOneToOne_def list_all_iff by blast
  ultimately have "(getLabel target = label line) =
      (label line \<noteq> None \<and> toInt target \<noteq> None \<and> toInt target = offsetInBytes line)"
    using labelled(2,3,4) name by auto
  with True target show ?thesis by (simp add: isHalt_def isHaltBySpec_def)
qed

theorem halt_of_label_reference_witness:
  "isHalt (programLoop ! 1) = Inr True \<and> isHaltBySpec (programLoop ! 1) \<and>
   isHalt (programBranch ! 0) = Inr False \<and> \<not> isHaltBySpec (programBranch ! 0) \<and>
   labelsResolved programLoop \<and> labelsOneToOne programLoop \<and>
   labelsResolved programBranch \<and> labelsOneToOne programBranch"
proof -
  have r1: "labelsResolved programLoop" and o1: "labelsOneToOne programLoop"
    and r2: "labelsResolved programBranch" and o2: "labelsOneToOne programBranch"
    by (simp_all add: labelsResolved_def labelsOneToOne_def run_defs)
  have m1: "programLoop ! 1 \<in> set programLoop" and m2: "programBranch ! 0 \<in> set programBranch"
    by (simp_all add: programLoop_def programBranch_def)
  have l1: "mnemonic (programLoop ! 1) = ''BRA'' \<Longrightarrow>
        \<exists>target name. elemAt (operands (programLoop ! 1)) 2 = Some target \<and> getLabel target = Some name"
    by (simp add: run_defs)
  have l2: "mnemonic (programBranch ! 0) = ''BRA'' \<Longrightarrow>
        \<exists>target name. elemAt (operands (programBranch ! 0)) 2 = Some target \<and> getLabel target = Some name"
    by (simp add: run_defs)
  have s1: "isHaltBySpec (programLoop ! 1)" and s2: "\<not> isHaltBySpec (programBranch ! 0)"
    by (simp_all add: isHaltBySpec_def run_defs)
  from halt_of_label_reference [OF m1 r1 o1 l1] halt_of_label_reference [OF m2 r2 o2 l2] s1 s2 r1 o1 r2 o2 show ?thesis by simp
qed

end
